theory Spec2Isabelle
  imports Main "HOL-Library.Sublist"
begin

section \<open>Python strings\<close>

text \<open>
  Python's \<^verbatim>\<open>sub in s\<close> on strings: \<open>sub\<close> occurs in \<open>s\<close> as a contiguous
  run of characters.
\<close>

fun str_in :: "string \<Rightarrow> string \<Rightarrow> bool" where
  "str_in sub [] = (sub = [])"
| "str_in sub (c # cs) = (prefix sub (c # cs) \<or> str_in sub cs)"

text \<open>Python's \<^verbatim>\<open>sep.join(xs)\<close>.\<close>

fun join :: "string \<Rightarrow> string list \<Rightarrow> string" where
  "join sep [] = []"
| "join sep [x] = x"
| "join sep (x # y # ys) = x @ sep @ join sep (y # ys)"

section \<open>lint.py: the replacement suggestion for a deprecated attrs value\<close>

text \<open>
  \<^verbatim>\<open>get_attrs_replacement_suggestion\<close> fills a list \<^verbatim>\<open>suggestions\<close> in three blocks
  (invisible, readonly, required), then adds the two operator notes, then joins the list
  with blanks or falls back to the generic text. Each block is one definition here, in
  the source's order.
\<close>

definition invisible_suggestions :: "string \<Rightarrow> string list" where
  "invisible_suggestions v =
     (if str_in ''invisible'' v then
        (if str_in '''invisible': 1'' v \<or> str_in '''invisible': True'' v
           then [''invisible=\"True\"'']
         else if str_in '''invisible': 0'' v \<or> str_in '''invisible': False'' v
           then [''invisible=\"False\"'']
         else if str_in ''[('' v then
           (if str_in ''state'' v \<and> str_in ''='' v
              then [''invisible=\"state == 'value'\"'']
            else [''invisible=\"condition\"''])
         else [])
      else [])"

definition readonly_suggestions :: "string \<Rightarrow> string list" where
  "readonly_suggestions v =
     (if str_in ''readonly'' v then
        (if str_in '''readonly': 1'' v \<or> str_in '''readonly': True'' v
           then [''readonly=\"True\"'']
         else if str_in '''readonly': 0'' v \<or> str_in '''readonly': False'' v
           then [''readonly=\"False\"'']
         else if str_in ''[('' v then
           (if str_in ''state'' v \<and> str_in ''!='' v
              then [''readonly=\"state != 'draft'\"'']
            else if str_in ''state'' v \<and> str_in ''='' v
              then [''readonly=\"state == 'value'\"'']
            else [''readonly=\"condition\"''])
         else [])
      else [])"

definition required_suggestions :: "string \<Rightarrow> string list" where
  "required_suggestions v =
     (if str_in ''required'' v then
        (if str_in '''required': 1'' v \<or> str_in '''required': True'' v
           then [''required=\"True\"'']
         else if str_in '''required': 0'' v \<or> str_in '''required': False'' v
           then [''required=\"False\"'']
         else if str_in ''[('' v then [''required=\"condition\"'']
         else [])
      else [])"

text \<open>The list \<^verbatim>\<open>suggestions\<close> as it stands before the operator notes (source line 178).\<close>

definition direct_suggestions :: "string \<Rightarrow> string list" where
  "direct_suggestions v =
     invisible_suggestions v @ readonly_suggestions v @ required_suggestions v"

definition or_note :: string where
  "or_note = ''(Note: Use 'or' for '|' operators)''"

definition and_note :: string where
  "and_note = ''(Note: Use 'and' for '&' operators)''"

definition generic_suggestion :: string where
  "generic_suggestion =
     ''Use direct attributes (invisible, readonly, required, column_invisible)''"

definition get_attrs_replacement_suggestion :: "string \<Rightarrow> string" where
  "get_attrs_replacement_suggestion attrs_value =
     (let s1 = direct_suggestions attrs_value;
          s2 = (if str_in ''|'' attrs_value then (if s1 \<noteq> [] then s1 @ [or_note] else s1)
                else s1);
          s3 = (if str_in ''&'' attrs_value then (if s2 \<noteq> [] then s2 @ [and_note] else s2)
                else s2)
      in if s3 \<noteq> [] then join '' '' s3 else generic_suggestion)"

section \<open>lint.py: the schema cache and its fetcher\<close>

text \<open>
  \<^verbatim>\<open>RNG_SCHEMA_URLS\<close> is a dict literal; its keys are the known schema categories.
\<close>

definition RNG_SCHEMA_URLS :: "(string \<times> string) list" where
  "RNG_SCHEMA_URLS =
    [(''common'', ''https://raw.githubusercontent.com/odoo/odoo/ba15d2f79b5762b280a7a74d7e4cb202543e2898/odoo/addons/base/rng/common.rng''),
     (''list'', ''https://raw.githubusercontent.com/odoo/odoo/ba15d2f79b5762b280a7a74d7e4cb202543e2898/odoo/addons/base/rng/list_view.rng''),
     (''search'', ''https://raw.githubusercontent.com/odoo/odoo/ba15d2f79b5762b280a7a74d7e4cb202543e2898/odoo/addons/base/rng/search_view.rng''),
     (''graph'', ''https://raw.githubusercontent.com/odoo/odoo/ba15d2f79b5762b280a7a74d7e4cb202543e2898/odoo/addons/base/rng/graph_view.rng''),
     (''pivot'', ''https://raw.githubusercontent.com/odoo/odoo/ba15d2f79b5762b280a7a74d7e4cb202543e2898/odoo/addons/base/rng/pivot_view.rng''),
     (''calendar'', ''https://raw.githubusercontent.com/odoo/odoo/ba15d2f79b5762b280a7a74d7e4cb202543e2898/odoo/addons/base/rng/calendar_view.rng''),
     (''activity'', ''https://raw.githubusercontent.com/odoo/odoo/ba15d2f79b5762b280a7a74d7e4cb202543e2898/odoo/addons/base/rng/activity_view.rng'')]"

text \<open>
  What \<^verbatim>\<open>requests.get(url, timeout=10)\<close> followed by \<^verbatim>\<open>raise_for_status()\<close> gives:
  the body text, or an exception (transport error, timeout or error status) with its
  message. The network is a parameter \<open>net\<close> of the fetcher.
\<close>

datatype response = Body string | Raised string

text \<open>
  The module-level dict \<^verbatim>\<open>_schema_cache\<close> is the field \<open>schema_cache\<close>; the field
  \<open>requests\<close> records every URL for which an outbound GET was issued, in order, so that
  "no retrieval" is observable.
\<close>

record fetcher =
  schema_cache :: "string \<rightharpoonup> string"
  requests :: "string list"

text \<open>
  \<^verbatim>\<open>download_rng_schema\<close>: the cache is consulted first, then the table of known keys;
  \<^verbatim>\<open>except Exception\<close> turns every failure of the GET into the return value \<^verbatim>\<open>None\<close>.
\<close>

definition download_rng_schema ::
  "(string \<Rightarrow> response) \<Rightarrow> fetcher \<Rightarrow> string \<Rightarrow> string option \<times> fetcher" where
  "download_rng_schema net st schema_type =
     (case schema_cache st schema_type of
        Some cached \<Rightarrow> (Some cached, st)
      | None \<Rightarrow>
          (case map_of RNG_SCHEMA_URLS schema_type of
             None \<Rightarrow> (None, st)
           | Some url \<Rightarrow>
               (case net url of
                  Body schema_content \<Rightarrow>
                    (Some schema_content,
                     st\<lparr>schema_cache := (schema_cache st)(schema_type \<mapsto> schema_content),
                        requests := requests st @ [url]\<rparr>)
                | Raised e \<Rightarrow> (None, st\<lparr>requests := requests st @ [url]\<rparr>))))"

text \<open>
  A caller issuing any sequence of fetches, each against whatever the network answers at
  that moment.
\<close>

fun download_many :: "fetcher \<Rightarrow> ((string \<Rightarrow> response) \<times> string) list \<Rightarrow> fetcher" where
  "download_many st [] = st"
| "download_many st ((net, schema_type) # rest) =
     download_many (snd (download_rng_schema net st schema_type)) rest"

section \<open>add_xml.py: appending inside the wrapper\<close>

text \<open>
  Python's \<^verbatim>\<open>s.replace(old, new)\<close>: every occurrence of \<open>old\<close>, found from the left
  and without overlap, is replaced; the replacement is not scanned again. With an empty
  \<open>old\<close> the text \<open>new\<close> is put before every character and at the end.
\<close>

function str_replace :: "string \<Rightarrow> string \<Rightarrow> string \<Rightarrow> string" where
  "str_replace old new [] = (if old = [] then new else [])"
| "str_replace old new (c # cs) =
     (if old = [] then new @ c # str_replace old new cs
      else if prefix old (c # cs) then new @ str_replace old new (drop (length old) (c # cs))
      else c # str_replace old new cs)"
  by pat_completeness auto
termination
  by (relation "measure (\<lambda>(old, new, s). length s)") auto

text \<open>The number of positions of \<open>s\<close> at which \<open>sub\<close> starts.\<close>

fun occurrences :: "string \<Rightarrow> string \<Rightarrow> nat" where
  "occurrences sub [] = (if sub = [] then 1 else 0)"
| "occurrences sub (c # cs) = (if prefix sub (c # cs) then 1 else 0) + occurrences sub cs"

text \<open>
  A file is its text, \<open>None\<close> when the path does not exist; the functions return the text
  the file holds afterwards. \<^verbatim>\<open>_ensure_xml_data_wrapper\<close> writes the empty wrapper when the
  file is missing or has size 0; \<^verbatim>\<open>_append_xml_to_file\<close> then reads the file and either
  replaces the marker or appends at the end.
\<close>

definition odoo_close :: string where
  "odoo_close = ''</odoo>''"

definition empty_wrapper :: string where
  "empty_wrapper = ''<odoo>\<newline>\<newline></odoo>\<newline>''"

definition ensure_xml_data_wrapper :: "string option \<Rightarrow> string" where
  "ensure_xml_data_wrapper file =
     (case file of
        None \<Rightarrow> empty_wrapper
      | Some content \<Rightarrow> if content = [] then empty_wrapper else content)"

definition append_xml_to_file :: "string option \<Rightarrow> string \<Rightarrow> string" where
  "append_xml_to_file file xml_content =
     (let content = ensure_xml_data_wrapper file;
          marker = odoo_close
      in if str_in marker content
         then str_replace marker (xml_content @ ''\<newline>'' @ marker) content
         else content @ xml_content)"

section \<open>XML documents\<close>

text \<open>
  An lxml element: its tag, its attributes, its text, the line it was parsed at, and
  its child elements in order. Comments and processing instructions are left out: no
  name test of the XPath expressions below selects them.
\<close>

datatype elem =
  Elem (tag: string) (attrib: "(string \<times> string) list") (elem_text: "string option")
       (sourceline: nat) (children: "elem list")

text \<open>
  Two elements of a document may look alike and still be two objects. A node is
  therefore an element together with its position: the child indices that lead to it
  from the root.
\<close>

type_synonym node = "nat list \<times> elem"

text \<open>\<^verbatim>\<open>element.get(k)\<close>\<close>

definition attr :: "elem \<Rightarrow> string \<Rightarrow> string option" where
  "attr e k = map_of (attrib e) k"

text \<open>
  The elements strictly below an element, in document order, each with its position
  relative to that element.
\<close>

fun descendants :: "elem \<Rightarrow> node list"
  and descendants_from :: "nat \<Rightarrow> elem list \<Rightarrow> node list" where
  "descendants (Elem t a x l cs) = descendants_from 0 cs"
| "descendants_from i [] = []"
| "descendants_from i (c # cs) =
     ([i], c) # map (\<lambda>(p, e). (i # p, e)) (descendants c) @ descendants_from (Suc i) cs"

text \<open>
  The node set of a relative path \<^verbatim>\<open>.//name\<close> evaluated at a context node: the
  elements strictly below the context node, which is not among them.
\<close>

definition below :: "node \<Rightarrow> node list" where
  "below ctx = map (\<lambda>(q, d). (fst ctx @ q, d)) (descendants (snd ctx))"

text \<open>
  The node set of an absolute path \<^verbatim>\<open>//name\<close>, and of \<^verbatim>\<open>root.iter()\<close>: every element
  of the document, the root element first.
\<close>

definition doc_elements :: "elem \<Rightarrow> node list" where
  "doc_elements root = ([], root) # descendants root"

text \<open>The predicates \<^verbatim>\<open>record[@model='ir.ui.view']\<close> and \<^verbatim>\<open>field[@name='...']\<close>.\<close>

definition is_view_record :: "elem \<Rightarrow> bool" where
  "is_view_record e \<longleftrightarrow> tag e = ''record'' \<and> attr e ''model'' = Some ''ir.ui.view''"

definition is_field_named :: "string \<Rightarrow> elem \<Rightarrow> bool" where
  "is_field_named name e \<longleftrightarrow> tag e = ''field'' \<and> attr e ''name'' = Some name"

text \<open>\<^verbatim>\<open>root.xpath("//record[@model='ir.ui.view']")\<close>\<close>

definition view_records :: "elem \<Rightarrow> node list" where
  "view_records root = filter (\<lambda>n. is_view_record (snd n)) (doc_elements root)"

text \<open>\<^verbatim>\<open>ctx.xpath(".//field[@name='...']")\<close> and \<^verbatim>\<open>ctx.xpath(".//name")\<close>\<close>

definition fields_below :: "node \<Rightarrow> string \<Rightarrow> node list" where
  "fields_below ctx name = filter (\<lambda>n. is_field_named name (snd n)) (below ctx)"

definition elements_below :: "node \<Rightarrow> string \<Rightarrow> node list" where
  "elements_below ctx name = filter (\<lambda>n. tag (snd n) = name) (below ctx)"

section \<open>lint.py: the view classifier\<close>

definition view_types :: "string list" where
  "view_types = [''list'', ''tree'', ''form'', ''search'', ''kanban'', ''graph'', ''pivot'',
                 ''calendar'', ''activity'']"

text \<open>
  The inner loop of \<^verbatim>\<open>get_view_type_from_xml\<close> over the view types, which returns at the
  first type found below the context node.
\<close>

fun first_view_type :: "node \<Rightarrow> string list \<Rightarrow> string option" where
  "first_view_type ctx [] = None"
| "first_view_type ctx (view_type # rest) =
     (if elements_below ctx view_type \<noteq> []
      then Some (if view_type = ''tree'' then ''list'' else view_type)
      else first_view_type ctx rest)"

text \<open>
  The outer loop over the view records: a record without an arch field is passed over,
  otherwise the first arch field (\<^verbatim>\<open>arch_field[0]\<close>) is searched.
\<close>

fun scan_records :: "node list \<Rightarrow> string option" where
  "scan_records [] = None"
| "scan_records (record # rest) =
     (case fields_below record ''arch'' of
        [] \<Rightarrow> scan_records rest
      | arch_content # _ \<Rightarrow>
          (case first_view_type arch_content view_types of
             Some view_type \<Rightarrow> Some view_type
           | None \<Rightarrow> scan_records rest))"

definition get_view_type_from_xml :: "elem \<Rightarrow> string option" where
  "get_view_type_from_xml root =
     (case scan_records (view_records root) of
        Some view_type \<Rightarrow> Some view_type
      | None \<Rightarrow> first_view_type ([], root) view_types)"





section \<open>lint.py: the elements handed to the schema validator\<close>

text \<open>The loop of \<^verbatim>\<open>extract_view_elements_for_rng\<close> over the view records.\<close>

fun extract_from_records :: "node list \<Rightarrow> string \<Rightarrow> node list" where
  "extract_from_records [] view_type = []"
| "extract_from_records (record # rest) view_type =
     (case fields_below record ''arch'' of
        [] \<Rightarrow> extract_from_records rest view_type
      | arch_content # _ \<Rightarrow>
          elements_below arch_content view_type @ extract_from_records rest view_type)"

definition extract_view_elements_for_rng :: "elem \<Rightarrow> string \<Rightarrow> node list" where
  "extract_view_elements_for_rng root view_type =
     extract_from_records (view_records root) view_type
       @ elements_below ([], root) view_type"

text \<open>
  A view record holds a node in its arch when the node lies below the record's first
  arch field.
\<close>

definition in_arch_of :: "node \<Rightarrow> node \<Rightarrow> bool" where
  "in_arch_of r n =
     (case fields_below r ''arch'' of [] \<Rightarrow> False | a # _ \<Rightarrow> n \<in> set (below a))"

definition records_holding :: "elem \<Rightarrow> node \<Rightarrow> node list" where
  "records_holding root n = filter (\<lambda>r. in_arch_of r n) (view_records root)"

section \<open>lint.py: findings\<close>

text \<open>
  The linter returns a list of messages. A finding is the message before it is
  formatted: the rule that fired and the values the f-string interpolates (a line
  number first, where the message starts with \<^verbatim>\<open>L{line}\<close>).
\<close>

datatype finding =
    Unescaped_Amp nat string
  | Deprecated_Tree nat
  | Deprecated_Attrs nat string string
  | Deprecated_States nat string string
  | Missing_Id nat
  | Missing_Field nat "string option" string
  | Missing_String nat string
  | Field_Without_Name nat
  | Rng_Skipped string
  | Rng_Error nat string
  | Rng_Failed string
  | Xml_Syntax_Error string

text \<open>Python's \<^verbatim>\<open>not v\<close> for a value that is \<^verbatim>\<open>None\<close> or a string.\<close>

definition falsy :: "string option \<Rightarrow> bool" where
  "falsy v \<longleftrightarrow> v = None \<or> v = Some []"

section \<open>lint.py: the convention rules\<close>

text \<open>The body of the loop over \<^verbatim>\<open>//*[@attrs or @states]\<close> (source lines 205 to 218).\<close>

definition attrs_states_findings :: "node \<Rightarrow> finding list" where
  "attrs_states_findings n =
     (let element = snd n; line = sourceline element in
        (case attr element ''attrs'' of
           None \<Rightarrow> []
         | Some attrs_value \<Rightarrow>
             if attrs_value = [] then []
             else [Deprecated_Attrs line (tag element)
                     (get_attrs_replacement_suggestion attrs_value)])
      @ (case attr element ''states'' of
           None \<Rightarrow> []
         | Some states_value \<Rightarrow>
             if states_value = [] then []
             else [Deprecated_States line (tag element) states_value]))"

definition required_fields :: "string list" where
  "required_fields = [''name'', ''model'', ''arch'']"

text \<open>
  The body of the loop over the view records (source lines 221 to 233). A required
  field is looked up with \<^verbatim>\<open>record.xpath(".//field[@name='...']")\<close>, that is anywhere
  below the record.
\<close>

definition record_findings :: "node \<Rightarrow> finding list" where
  "record_findings record =
     (let record_id = attr (snd record) ''id''; line = sourceline (snd record) in
        (if falsy record_id then [Missing_Id line] else [])
      @ concat (map (\<lambda>field_name.
                   if fields_below record field_name = []
                   then [Missing_Field line record_id field_name] else [])
                 required_fields))"

definition validate_odoo_view_conventions :: "elem \<Rightarrow> string \<Rightarrow> finding list" where
  "validate_odoo_view_conventions root view_type =
     (if view_type = ''list''
      then map (\<lambda>n. Deprecated_Tree (sourceline (snd n)))
             (filter (\<lambda>n. tag (snd n) = ''tree'') (doc_elements root))
      else [])
   @ concat (map attrs_states_findings
       (filter (\<lambda>n. attr (snd n) ''attrs'' \<noteq> None \<or> attr (snd n) ''states'' \<noteq> None)
          (doc_elements root)))
   @ concat (map record_findings (view_records root))
   @ concat (map (\<lambda>n. if falsy (attr (snd n) ''string'') \<and> tag (snd n) \<noteq> ''search''
                        then [Missing_String (sourceline (snd n)) (tag (snd n))] else [])
       (filter (\<lambda>n. tag (snd n) \<in> set view_types) (doc_elements root)))
   @ concat (map (\<lambda>n. if falsy (attr (snd n) ''name'')
                        then [Field_Without_Name (sourceline (snd n))] else [])
       (filter (\<lambda>n. tag (snd n) = ''field'') (doc_elements root)))"

section \<open>lint.py: schema validation and the lint of one file\<close>

text \<open>
  What the linter asks of lxml and of the file system is a parameter: parsing a file
  (\<^verbatim>\<open>etree.parse\<close>, \<open>Inl\<close> the message of the \<^verbatim>\<open>XMLSyntaxError\<close>), serializing and
  parsing a string, compiling the patched schema into a validator that gives the
  error log for an element (empty when the element is valid, \<open>Inl\<close> when compiling
  raises), and the name of the temporary file of the common schema.
\<close>

record lxml =
  parse_file :: "string \<Rightarrow> string + elem"
  tostring :: "elem \<Rightarrow> string"
  fromstring :: "string \<Rightarrow> string + elem"
  relaxng :: "string \<Rightarrow> string \<Rightarrow> string + (elem \<Rightarrow> string list)"
  common_schema_path :: string

text \<open>
  \<^verbatim>\<open>validate_view_with_rng\<close>: both schemas are fetched first; when either is missing or
  empty the only finding is the skip. Every exception inside the \<^verbatim>\<open>try\<close> becomes one
  \<^verbatim>\<open>RNG validation failed\<close> finding.
\<close>

definition validate_view_with_rng ::
  "lxml \<Rightarrow> (string \<Rightarrow> response) \<Rightarrow> fetcher \<Rightarrow> string \<Rightarrow> string \<Rightarrow> finding list \<times> fetcher" where
  "validate_view_with_rng X net st xml_content view_type =
     (let (common_schema, st1) = download_rng_schema net st ''common'';
          (view_schema, st2) = download_rng_schema net st1 view_type;
          skipped = ([Rng_Skipped view_type], st2)
      in case common_schema of
           None \<Rightarrow> skipped
         | Some common \<Rightarrow>
             (case view_schema of
                None \<Rightarrow> skipped
              | Some view \<Rightarrow>
                  if common = [] \<or> view = [] then skipped
                  else
                    (case fromstring X xml_content of
                       Inl e \<Rightarrow> ([Rng_Failed e], st2)
                     | Inr root \<Rightarrow>
                         (let view_elements = extract_view_elements_for_rng root view_type in
                          if view_elements = [] then ([], st2)
                          else
                            (case relaxng X common
                                    (str_replace ''include href=\"common.rng\"''
                                       (''include href=\"'' @ common_schema_path X @ ''\"'')
                                       view) of
                               Inl e \<Rightarrow> ([Rng_Failed e], st2)
                             | Inr validator \<Rightarrow>
                                 (concat (map (\<lambda>view_element.
                                            map (Rng_Error (sourceline (snd view_element)))
                                              (validator (snd view_element)))
                                          view_elements), st2))))))"

text \<open>The test of source line 260 on an element's text.\<close>

definition unescaped_amp :: "elem \<Rightarrow> bool" where
  "unescaped_amp element =
     (case elem_text element of
        None \<Rightarrow> False
      | Some t \<Rightarrow> t \<noteq> [] \<and> str_in ''&'' t \<and> \<not> str_in ''&amp;'' t)"

definition amp_findings :: "elem \<Rightarrow> finding list" where
  "amp_findings root =
     map (\<lambda>n. Unescaped_Amp (sourceline (snd n)) (tag (snd n)))
       (filter (\<lambda>n. unescaped_amp (snd n)) (doc_elements root))"

text \<open>
  \<^verbatim>\<open>lint_xml_file\<close>, on the text of the file. The convention rules and the schema
  validation run only under \<^verbatim>\<open>if view_type:\<close>, that is for a classified document.
\<close>

definition lint_xml_file ::
  "lxml \<Rightarrow> (string \<Rightarrow> response) \<Rightarrow> fetcher \<Rightarrow> string \<Rightarrow> bool \<Rightarrow> bool \<Rightarrow> finding list \<times> fetcher" where
  "lint_xml_file X net st file_text validate_views skip_rng =
     (case parse_file X file_text of
        Inl e \<Rightarrow> ([Xml_Syntax_Error e], st)
      | Inr root \<Rightarrow>
          (let errors = amp_findings root in
           if validate_views then
             (case get_view_type_from_xml root of
                None \<Rightarrow> (errors, st)
              | Some view_type \<Rightarrow>
                  (let convention_errors = validate_odoo_view_conventions root view_type in
                   if \<not> skip_rng \<and> map_of RNG_SCHEMA_URLS view_type \<noteq> None then
                     (let (rng_errors, st') =
                            validate_view_with_rng X net st (tostring X root) view_type
                      in (errors @ convention_errors @ rng_errors, st'))
                   else (errors @ convention_errors, st)))
           else (errors, st)))"



fun is_rng_skipped :: "finding \<Rightarrow> bool" where
  "is_rng_skipped (Rng_Skipped view_type) = True"
| "is_rng_skipped _ = False"

section \<open>extend.py: extending an inherited view\<close>

text \<open>
  What \<^verbatim>\<open>extend.py\<close> asks of lxml: parsing a candidate file with the blank-removing
  parser and parsing the rendered fragment (\<open>None\<close> when \<^verbatim>\<open>XMLSyntaxError\<close> is raised),
  and writing a tree back as text.
\<close>

record etree =
  parse_views :: "string \<Rightarrow> elem option"
  xml_fromstring :: "string \<Rightarrow> elem option"
  write_tree :: "elem \<Rightarrow> string"


fun append_child :: "elem \<Rightarrow> nat list \<Rightarrow> elem \<Rightarrow> elem" where
  "append_child (Elem t a x l cs) [] new = Elem t a x l (cs @ [new])"
| "append_child (Elem t a x l cs) (i # p) new =
     Elem t a x l (if i < length cs then cs[i := append_child (cs ! i) p new] else cs)"

text \<open>
  The test of source lines 28 and 29 on a record: its first child
  \<^verbatim>\<open>field[@name='inherit_id']\<close> exists and has the target as its \<^verbatim>\<open>ref\<close>.
\<close>

definition inherits_from :: "elem \<Rightarrow> string \<Rightarrow> bool" where
  "inherits_from record view_id =
     (case find (is_field_named ''inherit_id'') (children record) of
        None \<Rightarrow> False
      | Some inherit_field \<Rightarrow> attr inherit_field ''ref'' = Some view_id)"

text \<open>
  The body of the \<^verbatim>\<open>try\<close> for one candidate file, on the text of the file: the new
  text when the file is written, \<open>None\<close> when the loop goes on to the next file (the
  file does not parse, no record matches, the first matching record has no arch field,
  or the fragment does not parse, which the same \<^verbatim>\<open>except\<close> clause catches).
\<close>

definition update_file :: "etree \<Rightarrow> string \<Rightarrow> string \<Rightarrow> string \<Rightarrow> string option" where
  "update_file E view_id new_xpath_str file_text =
     (case parse_views E file_text of
        None \<Rightarrow> None
      | Some root \<Rightarrow>
          (case find (\<lambda>record. inherits_from (snd record) view_id)
                  (filter (\<lambda>n. is_view_record (snd n)) (below ([], root))) of
             None \<Rightarrow> None
           | Some match \<Rightarrow>
               (case fields_below match ''arch'' of
                  [] \<Rightarrow> None
                | arch_field # _ \<Rightarrow>
                    (case xml_fromstring E new_xpath_str of
                       None \<Rightarrow> None
                     | Some new_xpath_element \<Rightarrow>
                         Some (write_tree E
                                 (append_child root (fst arch_field) new_xpath_element))))))"

text \<open>
  The loop over \<^verbatim>\<open>views_path.glob('*.xml')\<close>. The directory is the list of its XML
  files, name and text, in the order the glob yields them; the result is the directory
  afterwards and the returned flag.
\<close>

fun update_first ::
  "etree \<Rightarrow> string \<Rightarrow> string \<Rightarrow> (string \<times> string) list \<Rightarrow> (string \<times> string) list \<times> bool" where
  "update_first E view_id new_xpath_str [] = ([], False)"
| "update_first E view_id new_xpath_str ((name, file_text) # rest) =
     (case update_file E view_id new_xpath_str file_text of
        Some new_text \<Rightarrow> ((name, new_text) # rest, True)
      | None \<Rightarrow>
          (let (rest', updated) = update_first E view_id new_xpath_str rest
           in ((name, file_text) # rest', updated)))"

text \<open>
  \<^verbatim>\<open>_find_and_update_view_file\<close>. The views directory is \<open>None\<close> when
  \<^verbatim>\<open>views_path.is_dir()\<close> is false; it then has no XML files before or after.
\<close>

definition find_and_update_view_file ::
  "etree \<Rightarrow> (string \<times> string) list option \<Rightarrow> string \<Rightarrow> string
     \<Rightarrow> (string \<times> string) list \<times> bool" where
  "find_and_update_view_file E views view_id new_xpath_str =
     (case views of
        None \<Rightarrow> ([], False)
      | Some files \<Rightarrow> update_first E view_id new_xpath_str files)"


section \<open>extend.py: the command\<close>

text \<open>
  The two Jinja templates are data files outside the Python modules; what they render
  is a parameter: \<^verbatim>\<open>view/xpath_field.xml.j2\<close> from the XPath expression, the position and the
  field name, and \<^verbatim>\<open>view/inherited_view.xml.j2\<close> from the view id, the id of the new
  view, the module name, the model name and the fragment.
\<close>

record templates =
  render_xpath_field :: "string \<Rightarrow> string \<Rightarrow> string \<Rightarrow> string"
  render_inherited_view :: "string \<Rightarrow> string \<Rightarrow> string \<Rightarrow> string \<Rightarrow> string \<Rightarrow> string"

text \<open>The command line options, each \<^verbatim>\<open>Optional[str]\<close>.\<close>

record options =
  opt_module :: "string option"
  opt_view_id :: "string option"
  opt_model_name :: "string option"
  opt_field :: "string option"
  opt_xpath_expr :: "string option"
  opt_position :: "string option"

text \<open>
  What the user would answer to each prompt: a text as typed, and the index of the
  entry picked in a choice list.
\<close>

record answers =
  pick_module :: nat
  ans_view_id :: string
  ans_model_name :: string
  ans_field :: string
  ans_xpath_expr :: string
  pick_position :: nat

text \<open>The request as the command uses it after the prompts.\<close>

record request =
  req_module :: string
  req_view_id :: string
  req_model_name :: string
  req_field :: string
  req_xpath_expr :: string
  req_position :: string

text \<open>
  \<^verbatim>\<open>prompt_for_choice\<close> aborts on an empty list and otherwise returns one of the choices.
\<close>

definition prompt_for_choice :: "string list \<Rightarrow> nat \<Rightarrow> string option" where
  "prompt_for_choice choices pick =
     (if choices = [] then None else Some (choices ! (pick mod length choices)))"

definition positions :: "string list" where
  "positions = [''after'', ''before'', ''inside'', ''replace'']"

text \<open>
  Source lines 72 to 88: \<^verbatim>\<open>if not x: x = prompt(...)\<close>. An option that is \<^verbatim>\<open>None\<close>
  or empty is replaced by what the prompt returns; any other value is left as given.
\<close>

definition or_text :: "string option \<Rightarrow> string \<Rightarrow> string" where
  "or_text given answer =
     (case given of None \<Rightarrow> answer | Some v \<Rightarrow> if v = [] then answer else v)"

definition or_choice :: "string option \<Rightarrow> string list \<Rightarrow> nat \<Rightarrow> string option" where
  "or_choice given choices pick =
     (case given of
        None \<Rightarrow> prompt_for_choice choices pick
      | Some v \<Rightarrow> if v = [] then prompt_for_choice choices pick else Some v)"

text \<open>The request after the prompts; \<open>None\<close> is \<^verbatim>\<open>typer.Abort\<close>.\<close>

definition resolve_request :: "options \<Rightarrow> answers \<Rightarrow> string list \<Rightarrow> request option" where
  "resolve_request opts user all_modules =
     (case or_choice (opt_module opts) all_modules (pick_module user) of
        None \<Rightarrow> None
      | Some module \<Rightarrow>
          (case or_choice (opt_position opts) positions (pick_position user) of
             None \<Rightarrow> None
           | Some position \<Rightarrow>
               Some \<lparr>req_module = module,
                     req_view_id = or_text (opt_view_id opts) (ans_view_id user),
                     req_model_name = or_text (opt_model_name opts) (ans_model_name user),
                     req_field = or_text (opt_field opts) (ans_field user),
                     req_xpath_expr = or_text (opt_xpath_expr opts) (ans_xpath_expr user),
                     req_position = position\<rparr>))"

text \<open>\<^verbatim>\<open>view_id.split('.')[-1]\<close>\<close>

definition view_name_part :: "string \<Rightarrow> string" where
  "view_name_part view_id = rev (takeWhile (\<lambda>c. c \<noteq> CHR ''.'') (rev view_id))"

text \<open>Writing a file of the directory: an existing file is overwritten.\<close>

definition write_file ::
  "string \<Rightarrow> string \<Rightarrow> (string \<times> string) list \<Rightarrow> (string \<times> string) list" where
  "write_file name content files =
     (if name \<in> fst ` set files
      then map (\<lambda>(n, c). if n = name then (n, content) else (n, c)) files
      else files @ [(name, content)])"

definition new_file_name :: "string \<Rightarrow> string" where
  "new_file_name view_id = view_name_part view_id @ ''_inherited_views.xml''"

text \<open>
  Source lines 95 to 116, for the module directory found: the XML files of its views
  directory after the call. The fragment is rendered, the candidates are searched, and
  when nothing was updated the new file is rendered and written.
\<close>

definition extend_module ::
  "templates \<Rightarrow> etree \<Rightarrow> request \<Rightarrow> (string \<times> string) list option \<Rightarrow> (string \<times> string) list" where
  "extend_module T E req views =
     (let xpath_str = render_xpath_field T (req_xpath_expr req) (req_position req) (req_field req);
          (files, updated) = find_and_update_view_file E views (req_view_id req) xpath_str
      in if updated then files
         else write_file (new_file_name (req_view_id req))
                (render_inherited_view T (req_view_id req)
                   (req_module req @ ''.'' @ view_name_part (req_view_id req) @ ''_inherit_''
                      @ req_module req)
                   (req_module req) (req_model_name req) xpath_str)
                files)"

text \<open>
  The project as the command sees it: the names of the addons paths (the choices of the
  module prompt) and the module directories found along them, first hit first, each
  with its views directory if it has one.
\<close>

record project =
  addons_names :: "string list"
  module_dirs :: "(string \<times> (string \<times> string) list option) list"

datatype outcome = Aborted | Exit_1 | Success "(string \<times> string) list"

text \<open>
  The command \<^verbatim>\<open>view\<close>. \<open>Success\<close> carries the XML files of the module's views directory
  after the call; the command writes nothing else.
\<close>

definition view :: "templates \<Rightarrow> etree \<Rightarrow> options \<Rightarrow> answers \<Rightarrow> project \<Rightarrow> outcome" where
  "view T E opts user proj =
     (case resolve_request opts user (addons_names proj) of
        None \<Rightarrow> Aborted
      | Some req \<Rightarrow>
          (case map_of (module_dirs proj) (req_module req) of
             None \<Rightarrow> Exit_1
           | Some views \<Rightarrow> Success (extend_module T E req views)))"

section \<open>Sample inputs\<close>

text \<open>Concrete inputs at which the theorems below are instantiated.\<close>

definition list_schema_url :: string where
  "list_schema_url = ''https://raw.githubusercontent.com/odoo/odoo/ba15d2f79b5762b280a7a74d7e4cb202543e2898/odoo/addons/base/rng/list_view.rng''"

definition attrs_prefix_or :: string where
  "attrs_prefix_or = ''{'invisible': ['|', ('a', '=', 1), ('b', '=', 2)]}''"

definition attrs_readonly_domain :: string where
  "attrs_readonly_domain =
     ''{'readonly': [('state', '!=', 'draft'), '|', ('a', '=', 1), '&', ('b', '=', 2)]}''"

text \<open>
  \<^verbatim>\<open><odoo><record model="ir.ui.view"><field name="arch"><tree/></field></record></odoo>\<close>
\<close>

definition tree_view_doc :: elem where
  "tree_view_doc =
     Elem ''odoo'' [] None 1
       [Elem ''record'' [(''model'', ''ir.ui.view'')] None 1
          [Elem ''field'' [(''name'', ''arch'')] None 1 [Elem ''tree'' [] None 1 []]]]"

text \<open>A data file without any view: \<^verbatim>\<open><odoo><record model="ir.ui.view"/></odoo>\<close>\<close>

definition bare_record_doc :: elem where
  "bare_record_doc = Elem ''odoo'' [] None 1 [Elem ''record'' [(''model'', ''ir.ui.view'')] None 1 []]"

text \<open>
  A raw form whose one2many field embeds a form of its own:
  \<^verbatim>\<open><form><field name="line_ids"><form/></field></form>\<close>
\<close>

definition raw_form_doc :: elem where
  "raw_form_doc =
     Elem ''form'' [] None 1
       [Elem ''field'' [(''name'', ''line_ids'')] None 2 [Elem ''form'' [] None 3 []]]"

text \<open>
  A view record inside the arch of another view record, with a list inside the inner
  arch.
\<close>

definition nested_records_doc :: elem where
  "nested_records_doc =
     Elem ''odoo'' [] None 1
       [Elem ''record'' [(''id'', ''outer''), (''model'', ''ir.ui.view'')] None 2
          [Elem ''field'' [(''name'', ''arch'')] None 3
             [Elem ''record'' [(''id'', ''inner''), (''model'', ''ir.ui.view'')] None 4
                [Elem ''field'' [(''name'', ''arch'')] None 5 [Elem ''list'' [] None 6 []]]]]]"

text \<open>
  A form view record that has no field named name of its own; its form shows the
  model's field called name:
  \<^verbatim>\<open><odoo><record id="view_partner_form" model="ir.ui.view">
    <field name="model">res.partner</field>
    <field name="arch" type="xml"><form string="Partner"><field name="name"/></form></field>
  </record></odoo>\<close>
\<close>

definition missing_name_doc :: elem where
  "missing_name_doc =
     Elem ''odoo'' [] None 1
       [Elem ''record'' [(''id'', ''view_partner_form''), (''model'', ''ir.ui.view'')] None 2
          [Elem ''field'' [(''name'', ''model'')] (Some ''res.partner'') 3 [],
           Elem ''field'' [(''name'', ''arch''), (''type'', ''xml'')] None 4
             [Elem ''form'' [(''string'', ''Partner'')] None 5
                [Elem ''field'' [(''name'', ''name'')] None 6 []]]]]"

text \<open>
  An lxml that knows three files by name and fails on everything else; enough to run
  the linter on the sample documents.
\<close>

definition table_lxml :: lxml where
  "table_lxml =
     \<lparr>parse_file = (\<lambda>s. case map_of [(''tree_view.xml'', tree_view_doc),
                                        (''bare_record.xml'', bare_record_doc),
                                        (''missing_name.xml'', missing_name_doc)] s of
                         Some root \<Rightarrow> Inr root
                       | None \<Rightarrow> Inl ''Start tag expected''),
      tostring = (\<lambda>root. ''<odoo/>''),
      fromstring = (\<lambda>s. Inl ''Document is empty''),
      relaxng = (\<lambda>common view. Inl ''not a schema''),
      common_schema_path = ''/tmp/common.rng''\<rparr>"

definition cold_fetcher :: fetcher where
  "cold_fetcher = \<lparr>schema_cache = Map.empty, requests = []\<rparr>"

text \<open>
  An inherited view of \<^verbatim>\<open>base.view_partner_form\<close> with an arch field, and one whose
  record names the same parent but has no arch field.
\<close>

definition partner_view_doc :: elem where
  "partner_view_doc =
     Elem ''odoo'' [] None 1
       [Elem ''record'' [(''id'', ''view_partner_form_inherit_crm''), (''model'', ''ir.ui.view'')] None 2
          [Elem ''field'' [(''name'', ''name'')] (Some ''partner.form.crm'') 3 [],
           Elem ''field'' [(''name'', ''inherit_id''), (''ref'', ''base.view_partner_form'')] None 4 [],
           Elem ''field'' [(''name'', ''arch''), (''type'', ''xml'')] None 5
             [Elem ''xpath'' [(''expr'', ''//field[@name='email']''), (''position'', ''after'')] None 6
                [Elem ''field'' [(''name'', ''x_code'')] None 7 []]]]]"

definition no_arch_doc :: elem where
  "no_arch_doc =
     Elem ''odoo'' [] None 1
       [Elem ''record'' [(''id'', ''view_partner_form_stub''), (''model'', ''ir.ui.view'')] None 2
          [Elem ''field'' [(''name'', ''inherit_id''), (''ref'', ''base.view_partner_form'')] None 3 []]]"

text \<open>The fragment for a field \<^verbatim>\<open>x_rank\<close> at \<^verbatim>\<open>//field[@name='vat']\<close>, for a position.\<close>

definition rank_fragment :: "string \<Rightarrow> elem" where
  "rank_fragment position =
     Elem ''xpath'' [(''expr'', ''//field[@name='vat']''), (''position'', position)] None 1
       [Elem ''field'' [(''name'', ''x_rank'')] None 2 []]"

text \<open>Templates of the expected shape, for the sample runs.\<close>

definition plain_templates :: templates where
  "plain_templates =
     \<lparr>render_xpath_field = (\<lambda>xpath_expr position field_name.
        ''<xpath expr=\"'' @ xpath_expr @ ''\" position=\"'' @ position @ ''\"><field name=\"''
          @ field_name @ ''\"/></xpath>''),
      render_inherited_view = (\<lambda>view_id inherit_view_id module_name model_name xpath_snippet.
        ''<odoo><record id=\"'' @ inherit_view_id @ ''\" model=\"ir.ui.view\"><field name=\"model\">''
          @ model_name @ ''</field><field name=\"inherit_id\" ref=\"'' @ view_id
          @ ''\"/><field name=\"arch\" type=\"xml\">'' @ xpath_snippet
          @ ''</field></record></odoo>'')\<rparr>"

text \<open>A plain serializer, and an lxml that knows the sample texts.\<close>

fun serialize :: "elem \<Rightarrow> string" where
  "serialize (Elem t a x l cs) =
     ''<'' @ t @ concat (map (\<lambda>(k, v). '' '' @ k @ ''=\"'' @ v @ ''\"'') a) @ ''>''
       @ (case x of None \<Rightarrow> [] | Some s \<Rightarrow> s) @ concat (map serialize cs)
       @ ''</'' @ t @ ''>''"

definition table_etree :: etree where
  "table_etree =
     \<lparr>parse_views = map_of [(''(text of partner_views.xml)'', partner_view_doc),
                             (''(text of stub_views.xml)'', no_arch_doc)],
      xml_fromstring = map_of
        [(''<xpath expr=\"//field[@name='vat']\" position=\"after\"><field name=\"x_rank\"/></xpath>'',
          rank_fragment ''after''),
         (''<xpath expr=\"//field[@name='vat']\" position=\"sideways\"><field name=\"x_rank\"/></xpath>'',
          rank_fragment ''sideways'')],
      write_tree = serialize\<rparr>"

definition crm_project :: project where
  "crm_project =
     \<lparr>addons_names = [''addons''],
      module_dirs = [(''crm_ext'', Some [(''notes.xml'', ''not xml''),
                                        (''partner_views.xml'', ''(text of partner_views.xml)'')])]\<rparr>"



definition rank_options :: "string \<Rightarrow> string \<Rightarrow> options" where
  "rank_options xpath_expr position =
     \<lparr>opt_module = Some ''crm_ext'', opt_view_id = Some ''base.view_partner_form'',
      opt_model_name = Some ''res.partner'', opt_field = Some ''x_rank'',
      opt_xpath_expr = Some xpath_expr, opt_position = Some position\<rparr>"

definition silent_user :: answers where
  "silent_user =
     \<lparr>pick_module = 0, ans_view_id = [], ans_model_name = [], ans_field = [],
      ans_xpath_expr = [], pick_position = 0\<rparr>"

text \<open>
  A list view in a view record:
  \<^verbatim>\<open><odoo><record id="view_task_list" model="ir.ui.view">
    <field name="arch" type="xml"><list><field name="name"/></list></field></record></odoo>\<close>,
  and an lxml whose validator rejects every element with one message.
\<close>

definition list_view_doc :: elem where
  "list_view_doc =
     Elem ''odoo'' [] None 1
       [Elem ''record'' [(''id'', ''view_task_list''), (''model'', ''ir.ui.view'')] None 2
          [Elem ''field'' [(''name'', ''arch''), (''type'', ''xml'')] None 3
             [Elem ''list'' [] None 4 [Elem ''field'' [(''name'', ''name'')] None 5 []]]]]"

definition strict_lxml :: lxml where
  "strict_lxml =
     \<lparr>parse_file = (\<lambda>s. Inr list_view_doc),
      tostring = (\<lambda>root. ''(text of list_view_doc)''),
      fromstring = (\<lambda>s. Inr list_view_doc),
      relaxng = (\<lambda>common view. Inr (\<lambda>element. [''Element list has extra content''])),
      common_schema_path = ''/tmp/common.rng''\<rparr>"

section \<open>Properties\<close>

subsection \<open>Strings\<close>

lemma str_in_prefix: "prefix sub s \<Longrightarrow> str_in sub s"
  by (cases s) auto

lemma str_in_append_left: "str_in sub s \<Longrightarrow> str_in sub (pre @ s)"
proof (induction pre)
  case Nil
  then show ?case by simp
next
  case (Cons c pre)
  then show ?case by simp
qed

lemma str_in_middle: "str_in sub (pre @ sub @ post)"
  by (rule str_in_append_left) (simp add: str_in_prefix)

lemma join_member_split:
  "x \<in> set xs \<Longrightarrow> \<exists>pre post. join sep xs = pre @ x @ post"
proof (induction sep xs rule: join.induct)
  case (1 sep)
  then show ?case by simp
next
  case (2 sep y)
  then have "join sep [y] = [] @ x @ []" by simp
  then show ?case by blast
next
  case (3 sep y z zs)
  show ?case
  proof (cases "x = y")
    case True
    then have "join sep (y # z # zs) = [] @ x @ (sep @ join sep (z # zs))" by simp
    then show ?thesis by blast
  next
    case False
    with 3 obtain pre post where "join sep (z # zs) = pre @ x @ post" by auto
    then have "join sep (y # z # zs) = (y @ sep @ pre) @ x @ post" by simp
    then show ?thesis by blast
  qed
qed

lemma str_in_join: "x \<in> set xs \<Longrightarrow> str_in x (join sep xs)"
  using join_member_split [of x xs sep] str_in_middle by metis

subsection \<open>The attrs suggestion\<close>

text \<open>
  Claim C7, as amended. The two operator notes are appended only to a non-empty list of
  direct-attribute suggestions (source lines 180 to 185: \<^verbatim>\<open>if suggestions:\<close>). So for
  every attrs value from which at least one direct-attribute suggestion was derived, a
  value containing \<^verbatim>\<open>|\<close> gets the note on \<^verbatim>\<open>or\<close> in its suggestion and a value
  containing \<^verbatim>\<open>&\<close> gets the note on \<^verbatim>\<open>and\<close>; when no direct-attribute suggestion
  was derived the result is the generic fallback text, whatever operators occur.
\<close>

theorem attrs_notes_follow_a_suggestion:
  "(direct_suggestions v \<noteq> [] \<longrightarrow>
      (str_in ''|'' v \<longrightarrow> str_in or_note (get_attrs_replacement_suggestion v)) \<and>
      (str_in ''&'' v \<longrightarrow> str_in and_note (get_attrs_replacement_suggestion v))) \<and>
   (direct_suggestions v = [] \<longrightarrow> get_attrs_replacement_suggestion v = generic_suggestion)"
  by (auto simp: get_attrs_replacement_suggestion_def Let_def intro!: str_in_join)

theorem attrs_notes_follow_a_suggestion_witness:
  "direct_suggestions attrs_readonly_domain \<noteq> [] \<and>
   str_in ''|'' attrs_readonly_domain \<and> str_in ''&'' attrs_readonly_domain \<and>
   str_in or_note (get_attrs_replacement_suggestion attrs_readonly_domain) \<and>
   str_in and_note (get_attrs_replacement_suggestion attrs_readonly_domain)"
proof -
  have h: "direct_suggestions attrs_readonly_domain \<noteq> []"
    "str_in ''|'' attrs_readonly_domain" "str_in ''&'' attrs_readonly_domain"
    by code_simp+
  with attrs_notes_follow_a_suggestion [of attrs_readonly_domain] show ?thesis by blast
qed

text \<open>
  Claim C7 as stated fails: a domain in prefix notation contains \<^verbatim>\<open>|\<close>, matches none
  of the probes, and gets the generic text without any note.
\<close>

theorem attrs_note_counterexample:
  "str_in ''|'' attrs_prefix_or \<and>
   get_attrs_replacement_suggestion attrs_prefix_or = generic_suggestion \<and>
   \<not> str_in or_note (get_attrs_replacement_suggestion attrs_prefix_or)"
  by code_simp

subsection \<open>The schema cache\<close>

lemma download_keeps_entry:
  "schema_cache st k = Some t \<Longrightarrow>
   schema_cache (snd (download_rng_schema net st k')) k = Some t"
  by (auto simp: download_rng_schema_def split: option.splits response.splits)

lemma download_many_keeps_entry:
  "schema_cache st k = Some t \<Longrightarrow> schema_cache (download_many st later) k = Some t"
proof (induction later arbitrary: st)
  case Nil
  then show ?case by simp
next
  case (Cons a later)
  obtain net k' where a: "a = (net, k')" by (cases a)
  from Cons.prems have "schema_cache (snd (download_rng_schema net st k')) k = Some t"
    by (rule download_keeps_entry)
  then show ?case using Cons.IH a by simp
qed

lemma download_cached:
  "schema_cache st k = Some t \<Longrightarrow> download_rng_schema net st k = (Some t, st)"
  by (simp add: download_rng_schema_def)

lemma url_of_list: "map_of RNG_SCHEMA_URLS ''list'' = Some list_schema_url"
  by (simp add: RNG_SCHEMA_URLS_def list_schema_url_def)

lemma url_of_form: "map_of RNG_SCHEMA_URLS ''form'' = None"
  by (simp add: RNG_SCHEMA_URLS_def)

text \<open>
  Claim C10. The cache memoizes only successful fetches. For a key \<open>k\<close> that is not
  cached: if \<open>k\<close> is unknown the fetch returns \<^verbatim>\<open>None\<close> and the whole state is
  unchanged; if the download raises, the fetch returns \<^verbatim>\<open>None\<close>, the cache is
  unchanged and one GET was issued, and a later fetch of \<open>k\<close> (against any network)
  issues a GET again; if the download succeeds with text \<open>t\<close>, the text is stored and
  returned, and after any sequence of further fetches every fetch of \<open>k\<close> returns \<open>t\<close>
  and leaves the state, hence the list of issued requests, as it is.
\<close>

theorem cache_memoizes_only_success:
  "(schema_cache st k = None \<and> map_of RNG_SCHEMA_URLS k = None \<longrightarrow>
      download_rng_schema net st k = (None, st)) \<and>
   (schema_cache st k = None \<and> map_of RNG_SCHEMA_URLS k = Some url \<and> net url = Raised e \<longrightarrow>
      download_rng_schema net st k = (None, st\<lparr>requests := requests st @ [url]\<rparr>) \<and>
      requests (snd (download_rng_schema net' (snd (download_rng_schema net st k)) k))
        = requests st @ [url, url]) \<and>
   (schema_cache st k = None \<and> map_of RNG_SCHEMA_URLS k = Some url \<and> net url = Body t \<longrightarrow>
      download_rng_schema net st k
        = (Some t, st\<lparr>schema_cache := (schema_cache st)(k \<mapsto> t),
                        requests := requests st @ [url]\<rparr>) \<and>
      (\<forall>later net''.
         download_rng_schema net'' (download_many (snd (download_rng_schema net st k)) later) k
           = (Some t, download_many (snd (download_rng_schema net st k)) later)))"
proof (intro conjI impI)
  assume "schema_cache st k = None \<and> map_of RNG_SCHEMA_URLS k = None"
  then show "download_rng_schema net st k = (None, st)"
    by (simp add: download_rng_schema_def)
next
  assume h: "schema_cache st k = None \<and> map_of RNG_SCHEMA_URLS k = Some url \<and> net url = Raised e"
  then show "download_rng_schema net st k = (None, st\<lparr>requests := requests st @ [url]\<rparr>)"
    by (simp add: download_rng_schema_def)
  from h show "requests (snd (download_rng_schema net' (snd (download_rng_schema net st k)) k))
        = requests st @ [url, url]"
    by (cases "net' url") (simp_all add: download_rng_schema_def)
next
  assume h: "schema_cache st k = None \<and> map_of RNG_SCHEMA_URLS k = Some url \<and> net url = Body t"
  then show first: "download_rng_schema net st k
        = (Some t, st\<lparr>schema_cache := (schema_cache st)(k \<mapsto> t),
                        requests := requests st @ [url]\<rparr>)"
    by (simp add: download_rng_schema_def)
  show "\<forall>later net''.
         download_rng_schema net'' (download_many (snd (download_rng_schema net st k)) later) k
           = (Some t, download_many (snd (download_rng_schema net st k)) later)"
  proof (intro allI)
    fix later net''
    have "schema_cache (snd (download_rng_schema net st k)) k = Some t"
      by (simp add: first)
    then have "schema_cache (download_many (snd (download_rng_schema net st k)) later) k = Some t"
      by (rule download_many_keeps_entry)
    then show "download_rng_schema net'' (download_many (snd (download_rng_schema net st k)) later) k
           = (Some t, download_many (snd (download_rng_schema net st k)) later)"
      by (rule download_cached)
  qed
qed

theorem cache_memoizes_only_success_witness:
  "download_rng_schema (\<lambda>u. Raised ''timeout'') \<lparr>schema_cache = Map.empty, requests = []\<rparr> ''form''
     = (None, \<lparr>schema_cache = Map.empty, requests = []\<rparr>) \<and>
   download_rng_schema (\<lambda>u. Raised ''timeout'') \<lparr>schema_cache = Map.empty, requests = []\<rparr> ''list''
     = (None, \<lparr>schema_cache = Map.empty, requests = [list_schema_url]\<rparr>) \<and>
   fst (download_rng_schema (\<lambda>u. Raised ''again'')
         (download_many (snd (download_rng_schema (\<lambda>u. Body ''<grammar/>'')
              \<lparr>schema_cache = Map.empty, requests = []\<rparr> ''list''))
            [(\<lambda>u. Raised ''down'', ''common'')]) ''list'') = Some ''<grammar/>''"
proof -
  let ?st = "\<lparr>schema_cache = Map.empty, requests = []\<rparr>"
  have a: "schema_cache ?st ''form'' = None \<and> map_of RNG_SCHEMA_URLS ''form'' = None"
    by (simp add: url_of_form)
  have b: "schema_cache ?st ''list'' = None \<and> map_of RNG_SCHEMA_URLS ''list'' = Some list_schema_url
      \<and> (\<lambda>u::string. Raised ''timeout'') list_schema_url = Raised ''timeout''"
    by (simp add: url_of_list)
  have c: "schema_cache ?st ''list'' = None \<and> map_of RNG_SCHEMA_URLS ''list'' = Some list_schema_url
      \<and> (\<lambda>u::string. Body ''<grammar/>'') list_schema_url = Body ''<grammar/>''"
    by (simp add: url_of_list)
  from a cache_memoizes_only_success [of ?st "''form''" "\<lambda>u. Raised ''timeout''"]
  have 1: "download_rng_schema (\<lambda>u. Raised ''timeout'') ?st ''form'' = (None, ?st)"
    by blast
  from b cache_memoizes_only_success
    [of ?st "''list''" "\<lambda>u. Raised ''timeout''" list_schema_url "''timeout''"]
  have 2: "download_rng_schema (\<lambda>u. Raised ''timeout'') ?st ''list''
      = (None, ?st\<lparr>requests := requests ?st @ [list_schema_url]\<rparr>)"
    by blast
  from c cache_memoizes_only_success
    [of ?st "''list''" "\<lambda>u. Body ''<grammar/>''" list_schema_url _ _ "''<grammar/>''"]
  have 3: "\<forall>later net''.
         download_rng_schema net''
           (download_many (snd (download_rng_schema (\<lambda>u. Body ''<grammar/>'') ?st ''list'')) later)
           ''list''
         = (Some ''<grammar/>'',
            download_many (snd (download_rng_schema (\<lambda>u. Body ''<grammar/>'') ?st ''list'')) later)"
    by blast
  from 3 have 4: "fst (download_rng_schema (\<lambda>u. Raised ''again'')
         (download_many (snd (download_rng_schema (\<lambda>u. Body ''<grammar/>'') ?st ''list''))
            [(\<lambda>u. Raised ''down'', ''common'')]) ''list'') = Some ''<grammar/>''"
    by (metis fst_conv)
  from 1 2 4 show ?thesis by simp
qed

subsection \<open>Appending inside the wrapper\<close>

lemma str_in_occurrences: "str_in sub s \<longleftrightarrow> 0 < occurrences sub s"
  by (induction s) auto

lemma str_in_length: "str_in sub s \<Longrightarrow> length sub \<le> length s"
  by (induction s) (auto dest: prefix_length_le)

lemma occurrences_append_left: "occurrences sub s \<le> occurrences sub (pre @ s)"
  by (induction pre) auto

lemma occurrences_at_head:
  "sub \<noteq> [] \<Longrightarrow> Suc (occurrences sub post) \<le> occurrences sub (sub @ post)"
proof -
  assume ne: "sub \<noteq> []"
  then obtain c cs where sub: "sub = c # cs" by (cases sub) auto
  have "occurrences sub post \<le> occurrences sub (cs @ post)"
    by (rule occurrences_append_left)
  moreover have "occurrences sub (sub @ post) = Suc (occurrences sub (cs @ post))"
    by (simp add: sub)
  ultimately show ?thesis by simp
qed

lemma prefix_of_shorter:
  "prefix a (b @ c) \<Longrightarrow> length a \<le> length b \<Longrightarrow> prefix a b"
  by (metis prefix_append prefix_length_prefix append_prefixD prefix_order.dual_order.refl prefixI)

lemma early_occurrence_counts:
  "sub \<noteq> [] \<Longrightarrow> str_in sub (pre @ butlast sub) \<Longrightarrow>
   2 \<le> occurrences sub (pre @ sub @ post)"
proof (induction pre)
  case Nil
  then have "length sub \<le> length (butlast sub)" using str_in_length by fastforce
  moreover have "length (butlast sub) < length sub"
    using Nil.prems(1) by (cases sub rule: rev_cases) simp_all
  ultimately have False by linarith
  then show ?case ..
next
  case (Cons c pre)
  from Cons.prems(2) consider
    (here) "prefix sub (c # pre @ butlast sub)" | (later) "str_in sub (pre @ butlast sub)"
    by auto
  then show ?case
  proof cases
    case here
    have "prefix (c # pre @ butlast sub) (c # pre @ sub @ post)"
      using Cons.prems(1) by (metis append_butlast_last_id append.assoc append_Cons prefixI)
    with here have "prefix sub (c # pre @ sub @ post)" by (rule prefix_order.trans)
    moreover have "1 \<le> occurrences sub (pre @ sub @ post)"
      using occurrences_at_head [OF Cons.prems(1), of post]
        occurrences_append_left [of sub "sub @ post" pre] by simp
    ultimately show ?thesis by simp
  next
    case later
    with Cons have "2 \<le> occurrences sub (pre @ sub @ post)" by simp
    then show ?thesis by simp
  qed
qed

lemma str_replace_absent:
  "sub \<noteq> [] \<Longrightarrow> \<not> str_in sub s \<Longrightarrow> str_replace sub new s = s"
  by (induction s) auto

lemma str_replace_first:
  "sub \<noteq> [] \<Longrightarrow> \<not> str_in sub (pre @ butlast sub) \<Longrightarrow>
   str_replace sub new (pre @ sub @ post) = pre @ new @ str_replace sub new post"
proof (induction pre)
  case Nil
  then obtain c cs where sub: "sub = c # cs" by (cases sub) auto
  have "prefix sub (c # cs @ post)" by (simp add: sub)
  then have "str_replace sub new (c # cs @ post)
      = new @ str_replace sub new (drop (length sub) (c # cs @ post))"
    using Nil.prems(1) by simp
  then show ?case by (simp add: sub)
next
  case (Cons c pre)
  have no: "\<not> prefix sub (c # pre @ sub @ post)"
  proof
    assume p: "prefix sub (c # pre @ sub @ post)"
    have "c # pre @ sub @ post = (c # pre @ butlast sub) @ (last sub # post)"
      using Cons.prems(1) by simp
    moreover have "length sub \<le> length (c # pre @ butlast sub)"
      using Cons.prems(1) by (cases sub rule: rev_cases) auto
    ultimately have "prefix sub (c # pre @ butlast sub)"
      using p prefix_of_shorter by metis
    with Cons.prems(2) show False by simp
  qed
  from Cons have "str_replace sub new (pre @ sub @ post) = pre @ new @ str_replace sub new post"
    by simp
  with no Cons.prems(1) show ?case by simp
qed

lemma single_occurrence_split:
  assumes "sub \<noteq> []" and "occurrences sub (pre @ sub @ post) = 1"
  shows "\<not> str_in sub (pre @ butlast sub)" and "\<not> str_in sub post"
proof -
  show "\<not> str_in sub (pre @ butlast sub)"
    using early_occurrence_counts [OF assms(1), of pre post] assms(2) by auto
  have "Suc (occurrences sub post) \<le> occurrences sub (pre @ sub @ post)"
    using occurrences_at_head [OF assms(1), of post]
      occurrences_append_left [of sub "sub @ post" pre] by simp
  with assms(2) show "\<not> str_in sub post" by (simp add: str_in_occurrences)
qed

text \<open>
  What the append path does, case by case. A new or empty target file is first
  initialized with the empty wrapper and receives the content immediately before that
  wrapper's closing tag; a file
  whose text holds the closing tag \<^verbatim>\<open></odoo>\<close> exactly once has the new content (and a
  newline) inserted immediately before that closing tag, nothing else changing, so no
  second wrapper appears; a non-empty file whose text holds no closing tag gets the
  content appended at its end, outside any wrapper.
\<close>

theorem append_keeps_wrapper_shape:
  "((file = None \<or> file = Some []) \<longrightarrow>
      append_xml_to_file file x = ''<odoo>\<newline>\<newline>'' @ x @ ''\<newline></odoo>\<newline>'') \<and>
   (occurrences odoo_close (pre @ odoo_close @ post) = 1 \<longrightarrow>
      append_xml_to_file (Some (pre @ odoo_close @ post)) x
        = pre @ x @ ''\<newline>'' @ odoo_close @ post) \<and>
   (content \<noteq> [] \<and> occurrences odoo_close content = 0 \<longrightarrow>
      append_xml_to_file (Some content) x = content @ x)"
proof (intro conjI impI)
  assume "file = None \<or> file = Some []"
  then have "ensure_xml_data_wrapper file = ''<odoo>\<newline>\<newline>'' @ odoo_close @ ''\<newline>''"
    by (auto simp: ensure_xml_data_wrapper_def empty_wrapper_def odoo_close_def)
  moreover have "\<not> str_in odoo_close (''<odoo>\<newline>\<newline>'' @ butlast odoo_close)"
    by (simp add: odoo_close_def)
  moreover have "\<not> str_in odoo_close ''\<newline>''"
    by (simp add: odoo_close_def)
  moreover have ne: "odoo_close \<noteq> []" by (simp add: odoo_close_def)
  ultimately have "append_xml_to_file file x
      = ''<odoo>\<newline>\<newline>'' @ (x @ ''\<newline>'' @ odoo_close) @ ''\<newline>''"
    using str_replace_first [of odoo_close "''<odoo>\<newline>\<newline>''" "x @ ''\<newline>'' @ odoo_close" "''\<newline>''"]
      str_replace_absent [of odoo_close "''\<newline>''" "x @ ''\<newline>'' @ odoo_close"]
      str_in_middle [of odoo_close "''<odoo>\<newline>\<newline>''" "''\<newline>''"]
    by (simp add: append_xml_to_file_def Let_def)
  then show "append_xml_to_file file x = ''<odoo>\<newline>\<newline>'' @ x @ ''\<newline></odoo>\<newline>''"
    by (simp add: odoo_close_def)
next
  assume one: "occurrences odoo_close (pre @ odoo_close @ post) = 1"
  have ne: "odoo_close \<noteq> []" by (simp add: odoo_close_def)
  from single_occurrence_split [OF ne one]
  have a: "\<not> str_in odoo_close (pre @ butlast odoo_close)" and b: "\<not> str_in odoo_close post"
    by auto
  have "str_replace odoo_close (x @ ''\<newline>'' @ odoo_close) (pre @ odoo_close @ post)
      = pre @ (x @ ''\<newline>'' @ odoo_close) @ post"
    using str_replace_first [OF ne a] str_replace_absent [OF ne b] by simp
  then show "append_xml_to_file (Some (pre @ odoo_close @ post)) x
        = pre @ x @ ''\<newline>'' @ odoo_close @ post"
    using ne str_in_middle [of odoo_close pre post]
    by (simp add: append_xml_to_file_def ensure_xml_data_wrapper_def Let_def)
next
  assume "content \<noteq> [] \<and> occurrences odoo_close content = 0"
  then show "append_xml_to_file (Some content) x = content @ x"
    by (simp add: append_xml_to_file_def ensure_xml_data_wrapper_def Let_def str_in_occurrences)
qed

theorem append_keeps_wrapper_shape_witness:
  "append_xml_to_file None ''<record id=\"a\"/>''
     = ''<odoo>\<newline>\<newline><record id=\"a\"/>\<newline></odoo>\<newline>'' \<and>
   append_xml_to_file (Some (''<odoo>\<newline><menuitem/>\<newline>'' @ odoo_close @ ''\<newline>'')) ''<record id=\"a\"/>''
     = ''<odoo>\<newline><menuitem/>\<newline>'' @ ''<record id=\"a\"/>'' @ ''\<newline>'' @ odoo_close @ ''\<newline>'' \<and>
   append_xml_to_file (Some ''<openerp/>'') ''<record id=\"a\"/>'' = ''<openerp/><record id=\"a\"/>''"
proof -
  have one: "occurrences odoo_close (''<odoo>\<newline><menuitem/>\<newline>'' @ odoo_close @ ''\<newline>'') = 1"
    by (simp add: odoo_close_def)
  have none: "''<openerp/>'' \<noteq> [] \<and> occurrences odoo_close ''<openerp/>'' = 0"
    by (simp add: odoo_close_def)
  have a: "append_xml_to_file None ''<record id=\"a\"/>''
     = ''<odoo>\<newline>\<newline>'' @ ''<record id=\"a\"/>'' @ ''\<newline></odoo>\<newline>''"
    using append_keeps_wrapper_shape [of None "''<record id=\"a\"/>''"] by blast
  have b: "append_xml_to_file (Some (''<odoo>\<newline><menuitem/>\<newline>'' @ odoo_close @ ''\<newline>'')) ''<record id=\"a\"/>''
     = ''<odoo>\<newline><menuitem/>\<newline>'' @ ''<record id=\"a\"/>'' @ ''\<newline>'' @ odoo_close @ ''\<newline>''"
    using one append_keeps_wrapper_shape
      [of _ "''<record id=\"a\"/>''" "''<odoo>\<newline><menuitem/>\<newline>''" "''\<newline>''"]
    by blast
  have c: "append_xml_to_file (Some ''<openerp/>'') ''<record id=\"a\"/>''
     = ''<openerp/>'' @ ''<record id=\"a\"/>''"
    using none append_keeps_wrapper_shape [of _ "''<record id=\"a\"/>''" _ _ "''<openerp/>''"]
    by blast
  from a b c show ?thesis by simp
qed

text \<open>
  Claim C3 against the code. The docstrings promise that the file is wrapped and that
  content goes inside the wrapper, as the claim does; the code keeps the promise only
  for a missing or empty file and for a file that holds the closing tag. A target file
  that holds only a newline is not empty, so no wrapper is written and the persisted
  document is the content alone; a target file that holds the self-closing wrapper
  \<^verbatim>\<open><odoo/>\<close> has no closing tag, so the content is put after the wrapper, not in it.
\<close>

theorem append_leaves_file_unwrapped:
  "append_xml_to_file (Some ''\<newline>'') ''<record id=\"a\"/>'' = ''\<newline><record id=\"a\"/>'' \<and>
   \<not> str_in ''odoo'' (append_xml_to_file (Some ''\<newline>'') ''<record id=\"a\"/>'') \<and>
   append_xml_to_file (Some ''<odoo/>'') ''<record id=\"a\"/>'' = ''<odoo/><record id=\"a\"/>''"
  by (simp add: append_xml_to_file_def ensure_xml_data_wrapper_def odoo_close_def)

subsection \<open>Documents and the classifier\<close>





lemma descendants_paths:
  "(p, e) \<in> set (descendants r) \<Longrightarrow> p \<noteq> []"
  "(p, e) \<in> set (descendants_from i cs) \<Longrightarrow> p \<noteq> [] \<and> i \<le> hd p"
  by (induction r and i cs arbitrary: p e and p e rule: descendants_descendants_from.induct)
    (auto, fastforce+)

lemma descendants_distinct:
  "distinct (descendants r)"
  "distinct (descendants_from i cs)"
proof (induction r and i cs rule: descendants_descendants_from.induct)
  case (1 t a x l cs)
  then show ?case by simp
next
  case (2 i)
  then show ?case by simp
next
  case (3 i c cs)
  have inj: "inj_on (\<lambda>(p, e). (i # p, e)) (set (descendants c))"
    by (auto simp: inj_on_def)
  have a: "([i], c) \<notin> set (map (\<lambda>(p, e). (i # p, e)) (descendants c))"
    using descendants_paths(1) by fastforce
  have b: "([i], c) \<notin> set (descendants_from (Suc i) cs)"
    using descendants_paths(2) [of "[i]" c "Suc i" cs] by auto
  have c: "set (map (\<lambda>(p, e). (i # p, e)) (descendants c)) \<inter> set (descendants_from (Suc i) cs) = {}"
  proof (rule ccontr)
    assume "\<not> ?thesis"
    then obtain n where n: "n \<in> set (map (\<lambda>(p, e). (i # p, e)) (descendants c))"
      "n \<in> set (descendants_from (Suc i) cs)" by blast
    from n(1) have "hd (fst n) = i" by auto
    moreover from n(2) have "Suc i \<le> hd (fst n)"
      using descendants_paths(2) [of "fst n" "snd n" "Suc i" cs] by simp
    ultimately show False by simp
  qed
  from 3 inj a b c show ?case by (simp add: distinct_map)
qed

lemma descendants_trans:
  "(p, e) \<in> set (descendants r) \<Longrightarrow> (q, d) \<in> set (descendants e) \<Longrightarrow>
     (p @ q, d) \<in> set (descendants r)"
  "(p, e) \<in> set (descendants_from i cs) \<Longrightarrow> (q, d) \<in> set (descendants e) \<Longrightarrow>
     (p @ q, d) \<in> set (descendants_from i cs)"
proof (induction r and i cs arbitrary: p e and p e rule: descendants_descendants_from.induct)
  case (1 t a x l cs)
  then show ?case by simp
next
  case (2 i)
  then show ?case by simp
next
  case (3 i c cs)
  from "3.prems"(1) consider
    (head) "p = [i]" "e = c"
    | (inside) p' where "p = i # p'" "(p', e) \<in> set (descendants c)"
    | (later) "(p, e) \<in> set (descendants_from (Suc i) cs)"
    by auto
  then show ?case
  proof cases
    case head
    with "3.prems"(2) have "(q, d) \<in> set (descendants c)" by simp
    then have "(i # q, d) \<in> set (map (\<lambda>(p, e). (i # p, e)) (descendants c))" by force
    with head show ?thesis by simp
  next
    case inside
    with "3.IH"(1) "3.prems"(2) have "(p' @ q, d) \<in> set (descendants c)" by blast
    then have "(i # p' @ q, d) \<in> set (map (\<lambda>(p, e). (i # p, e)) (descendants c))" by force
    with inside show ?thesis by simp
  next
    case later
    with "3.IH"(2) "3.prems"(2) show ?thesis by simp
  qed
qed

lemma below_distinct: "distinct (below ctx)"
proof -
  have "inj_on (\<lambda>(q, d). (fst ctx @ q, d)) (set (descendants (snd ctx)))"
    by (auto simp: inj_on_def)
  then show ?thesis by (simp add: below_def distinct_map descendants_distinct(1))
qed

lemma below_root: "below ([], root) = descendants root"
  by (simp add: below_def)

lemma below_in_document:
  assumes "r \<in> set (doc_elements root)" and "n \<in> set (below r)"
  shows "n \<in> set (descendants root)"
proof -
  obtain p e where r: "r = (p, e)" by (cases r)
  from assms(2) obtain q d where n: "n = (p @ q, d)" "(q, d) \<in> set (descendants e)"
    by (auto simp: below_def r)
  show ?thesis
  proof (cases "r = ([], root)")
    case True
    with n r show ?thesis by simp
  next
    case False
    with assms(1) have "r \<in> set (descendants root)" by (simp add: doc_elements_def)
    with r have "(p, e) \<in> set (descendants root)" by simp
    with n show ?thesis using descendants_trans(1) by blast
  qed
qed








subsection \<open>How often an element is extracted\<close>

lemma count_list_distinct_filter:
  "distinct xs \<Longrightarrow> count_list (filter P xs) n = (if n \<in> set xs \<and> P n then 1 else 0)"
  by (induction xs) auto

lemma count_elements_below:
  "count_list (elements_below a vt) n = (if n \<in> set (below a) \<and> tag (snd n) = vt then 1 else 0)"
  by (simp add: elements_below_def count_list_distinct_filter below_distinct)

lemma count_extract_from_records:
  "count_list (extract_from_records rs vt) n =
     (if tag (snd n) = vt then length (filter (\<lambda>r. in_arch_of r n) rs) else 0)"
proof (induction rs)
  case Nil
  then show ?case by simp
next
  case step: (Cons r rs)
  show ?case
  proof (cases "fields_below r ''arch''")
    case Nil
    with step show ?thesis by (simp add: in_arch_of_def)
  next
    case (Cons a as)
    with step show ?thesis by (simp add: in_arch_of_def count_elements_below)
  qed
qed

lemma holding_record_in_document:
  assumes "r \<in> set (view_records root)" and "in_arch_of r n"
  shows "n \<in> set (descendants root)"
proof -
  from assms(2) obtain a as where a: "fields_below r ''arch'' = a # as" "n \<in> set (below a)"
    by (auto simp: in_arch_of_def split: list.splits)
  from a(1) have "a \<in> set (fields_below r ''arch'')" by simp
  then have "a \<in> set (below r)" by (simp add: fields_below_def)
  moreover from assms(1) have "r \<in> set (doc_elements root)" by (simp add: view_records_def)
  ultimately have "a \<in> set (descendants root)" using below_in_document by blast
  then have "a \<in> set (doc_elements root)" by (simp add: doc_elements_def)
  with a(2) show ?thesis using below_in_document by blast
qed

text \<open>
  Claim C9, as amended. In the list that \<^verbatim>\<open>extract_view_elements_for_rng\<close> hands to the
  validator, an element of the requested type that lies below the document root occurs
  once for the whole-document scan and once more for every view record that holds it
  in its first arch field: twice when one record holds it, once when it is unwrapped
  (no record holds it). Any other node does not occur; in particular the root element
  is never extracted. When both schemas are at hand and compile, the validator is run
  on the extracted list entry by entry, so an element is validated, and its errors are
  reported, as often as it was extracted.
\<close>

theorem extraction_multiplicity:
  "count_list (extract_view_elements_for_rng root vt) n =
     (if n \<in> set (descendants root) \<and> tag (snd n) = vt
      then 1 + length (records_holding root n) else 0) \<and>
   count_list (extract_view_elements_for_rng root vt) ([], root) = 0 \<and>
   (fst (download_rng_schema net st ''common'') = Some common \<and> common \<noteq> [] \<and>
    fst (download_rng_schema net (snd (download_rng_schema net st ''common'')) vt) = Some view_schema \<and>
    view_schema \<noteq> [] \<and>
    fromstring X xml = Inr root \<and>
    relaxng X common
      (str_replace ''include href=\"common.rng\"''
         (''include href=\"'' @ common_schema_path X @ ''\"'') view_schema) = Inr validator \<longrightarrow>
    fst (validate_view_with_rng X net st xml vt)
      = concat (map (\<lambda>view_element. map (Rng_Error (sourceline (snd view_element)))
                                      (validator (snd view_element)))
                  (extract_view_elements_for_rng root vt)))"
proof -
  have outside: "records_holding root m = []" if "m \<notin> set (descendants root)" for m
    using that holding_record_in_document [of _ root m]
    by (auto simp: records_holding_def filter_empty_conv)
  have main: "count_list (extract_view_elements_for_rng root vt) m =
     (if m \<in> set (descendants root) \<and> tag (snd m) = vt
      then 1 + length (records_holding root m) else 0)" for m
  proof (cases "m \<in> set (descendants root)")
    case True
    then show ?thesis
      by (simp add: extract_view_elements_for_rng_def count_extract_from_records
          count_elements_below below_root records_holding_def)
  next
    case False
    with outside [OF False] show ?thesis
      by (simp add: extract_view_elements_for_rng_def count_extract_from_records
          count_elements_below below_root records_holding_def)
  qed
  have "([], root) \<notin> set (descendants root)" using descendants_paths(1) by blast
  with main [of "([], root)"]
  have never: "count_list (extract_view_elements_for_rng root vt) ([], root) = 0" by simp
  have run: "fst (validate_view_with_rng X net st xml vt)
      = concat (map (\<lambda>view_element. map (Rng_Error (sourceline (snd view_element)))
                                      (validator (snd view_element)))
                  (extract_view_elements_for_rng root vt))"
    if "fst (download_rng_schema net st ''common'') = Some common \<and> common \<noteq> [] \<and>
        fst (download_rng_schema net (snd (download_rng_schema net st ''common'')) vt) = Some view_schema \<and>
        view_schema \<noteq> [] \<and>
        fromstring X xml = Inr root \<and>
        relaxng X common
          (str_replace ''include href=\"common.rng\"''
             (''include href=\"'' @ common_schema_path X @ ''\"'') view_schema) = Inr validator"
    using that by (simp add: validate_view_with_rng_def Let_def case_prod_beta)
  from main [of n] never run show ?thesis by blast
qed

theorem extraction_multiplicity_witness:
  "get_view_type_from_xml list_view_doc = Some ''list'' \<and>
   count_list (extract_view_elements_for_rng list_view_doc ''list'')
     ([0, 0, 0], Elem ''list'' [] None 4 [Elem ''field'' [(''name'', ''name'')] None 5 []]) = 2 \<and>
   count_list (extract_view_elements_for_rng raw_form_doc ''form'')
     ([0, 0], Elem ''form'' [] None 3 []) = 1 \<and>
   fst (validate_view_with_rng strict_lxml (\<lambda>u. Body ''<grammar/>'') cold_fetcher
          ''(text of list_view_doc)'' ''list'')
     = [Rng_Error 4 ''Element list has extra content'',
        Rng_Error 4 ''Element list has extra content'']"
proof -
  let ?list = "([0, 0, 0] :: nat list,
      Elem ''list'' [] None 4 [Elem ''field'' [(''name'', ''name'')] None 5 []])"
  let ?net = "\<lambda>u::string. Body ''<grammar/>''"
  have c: "get_view_type_from_xml list_view_doc = Some ''list''"
    by code_simp
  have a: "?list \<in> set (descendants list_view_doc)"
    "length (records_holding list_view_doc ?list) = 1"
    by code_simp+
  have b: "([0, 0], Elem ''form'' [] None 3 []) \<in> set (descendants raw_form_doc)"
    "length (records_holding raw_form_doc ([0, 0], Elem ''form'' [] None 3 [])) = 0"
    by code_simp+
  have d: "fst (download_rng_schema ?net cold_fetcher ''common'') = Some ''<grammar/>'' \<and>
      ''<grammar/>'' \<noteq> [] \<and>
      fst (download_rng_schema ?net (snd (download_rng_schema ?net cold_fetcher ''common'')) ''list'')
        = Some ''<grammar/>'' \<and>
      ''<grammar/>'' \<noteq> [] \<and>
      fromstring strict_lxml ''(text of list_view_doc)'' = Inr list_view_doc \<and>
      relaxng strict_lxml ''<grammar/>''
        (str_replace ''include href=\"common.rng\"''
           (''include href=\"'' @ common_schema_path strict_lxml @ ''\"'') ''<grammar/>'')
        = Inr (\<lambda>element. [''Element list has extra content''])"
    by (simp add: download_rng_schema_def RNG_SCHEMA_URLS_def cold_fetcher_def strict_lxml_def)
  have e: "extract_view_elements_for_rng list_view_doc ''list'' = [?list, ?list]"
    by code_simp
  note first = extraction_multiplicity
    [of list_view_doc "''list''" ?list ?net cold_fetcher "''<grammar/>''" "''<grammar/>''"
      strict_lxml "''(text of list_view_doc)''" "\<lambda>element. [''Element list has extra content'']"]
  from first a have twice: "count_list (extract_view_elements_for_rng list_view_doc ''list'') ?list = 2"
    by simp
  from first d have "fst (validate_view_with_rng strict_lxml ?net cold_fetcher
        ''(text of list_view_doc)'' ''list'')
      = concat (map (\<lambda>view_element. map (Rng_Error (sourceline (snd view_element)))
                                      [''Element list has extra content''])
                  (extract_view_elements_for_rng list_view_doc ''list''))"
    by blast
  then have errors: "fst (validate_view_with_rng strict_lxml ?net cold_fetcher
        ''(text of list_view_doc)'' ''list'')
      = [Rng_Error 4 ''Element list has extra content'',
         Rng_Error 4 ''Element list has extra content'']"
    by (simp add: e)
  from b extraction_multiplicity [of raw_form_doc "''form''" "([0, 0], Elem ''form'' [] None 3 [])"]
  have once: "count_list (extract_view_elements_for_rng raw_form_doc ''form'')
     ([0, 0], Elem ''form'' [] None 3 []) = 1"
    by simp
  from c twice once errors show ?thesis by blast
qed

text \<open>
  Claim C9 as stated fails in both directions. A raw form is classified as a form by
  the form embedded in it, yet the outer form, an unwrapped view element of the
  classified type, is not extracted at all; and a list inside the arch of a view record
  that itself lies in the arch of another view record is extracted three times.
\<close>

theorem extraction_counterexample:
  "get_view_type_from_xml raw_form_doc = Some ''form'' \<and>
   tag raw_form_doc = ''form'' \<and>
   count_list (extract_view_elements_for_rng raw_form_doc ''form'') ([], raw_form_doc) = 0 \<and>
   get_view_type_from_xml nested_records_doc = Some ''list'' \<and>
   count_list (extract_view_elements_for_rng nested_records_doc ''list'')
     ([0, 0, 0, 0, 0], Elem ''list'' [] None 6 []) = 3"
  by code_simp

subsection \<open>Findings on incomplete view records\<close>




lemma filter_none: "(\<And>f. f \<in> set xs \<Longrightarrow> \<not> P f) \<Longrightarrow> filter P xs = []"
  by (induction xs) auto












subsection \<open>A failed schema fetch\<close>

lemma download_fails:
  "schema_cache st k = None \<Longrightarrow> map_of RNG_SCHEMA_URLS k = Some url \<Longrightarrow> net url = Raised e \<Longrightarrow>
   fst (download_rng_schema net st k) = None"
  by (simp add: download_rng_schema_def)

lemma download_other_key:
  "k \<noteq> k' \<Longrightarrow> schema_cache (snd (download_rng_schema net st k')) k = schema_cache st k"
  by (auto simp: download_rng_schema_def split: option.splits response.splits)

lemma validate_skips:
  assumes "fst (download_rng_schema net st ''common'') = None \<or>
           fst (download_rng_schema net (snd (download_rng_schema net st ''common'')) vt) = None"
  shows "fst (validate_view_with_rng X net st xml vt) = [Rng_Skipped vt]"
  using assms
  by (auto simp: validate_view_with_rng_def Let_def case_prod_beta split: option.splits)

lemma conventions_no_skip:
  "f \<in> set (validate_odoo_view_conventions root vt) \<Longrightarrow> \<not> is_rng_skipped f"
  by (auto simp: validate_odoo_view_conventions_def attrs_states_findings_def
      record_findings_def Let_def split: option.splits if_splits)

lemma amp_no_skip: "f \<in> set (amp_findings root) \<Longrightarrow> \<not> is_rng_skipped f"
  by (auto simp: amp_findings_def)

text \<open>
  Claim C5. Let a file parse to a document that is classified with a view type that
  has a schema, and let the fetch of a schema category that validation needs (the
  common schema or the one of the view type) hit a failing download. Then the fetch
  returns the failure value \<^verbatim>\<open>None\<close>, schema validation yields the skip finding and
  nothing else, and the lint of the file is the ampersand and convention findings
  followed by that skip finding, which is the only skip finding of the file.
\<close>

theorem schema_fetch_failure_is_a_skip:
  assumes "parse_file X text = Inr root"
    and "get_view_type_from_xml root = Some vt"
    and "map_of RNG_SCHEMA_URLS vt \<noteq> None"
    and "k = ''common'' \<or> k = vt"
    and "schema_cache st k = None"
    and "map_of RNG_SCHEMA_URLS k = Some url"
    and "net url = Raised e"
  shows "fst (download_rng_schema net st k) = None \<and>
         fst (validate_view_with_rng X net st xml vt) = [Rng_Skipped vt] \<and>
         fst (lint_xml_file X net st text True False)
           = amp_findings root @ validate_odoo_view_conventions root vt @ [Rng_Skipped vt] \<and>
         length (filter is_rng_skipped (fst (lint_xml_file X net st text True False))) = 1"
proof -
  have failed: "fst (download_rng_schema net st k) = None"
    using assms(5-7) by (rule download_fails)
  have skip: "fst (validate_view_with_rng X net st x vt) = [Rng_Skipped vt]" for x
  proof (cases "k = ''common''")
    case True
    with failed show ?thesis by (intro validate_skips) simp
  next
    case False
    with assms(4) have k: "k = vt" by simp
    with False have "schema_cache (snd (download_rng_schema net st ''common'')) vt = None"
      using assms(5) by (simp add: download_other_key)
    then have "fst (download_rng_schema net (snd (download_rng_schema net st ''common'')) vt) = None"
      using assms(6,7) k by (intro download_fails) simp_all
    then show ?thesis by (intro validate_skips) simp
  qed
  have "fst (lint_xml_file X net st text True False)
      = amp_findings root @ validate_odoo_view_conventions root vt
          @ fst (validate_view_with_rng X net st (tostring X root) vt)"
    using assms(1-3) by (auto simp: lint_xml_file_def Let_def split: prod.splits)
  with skip have lint: "fst (lint_xml_file X net st text True False)
      = amp_findings root @ validate_odoo_view_conventions root vt @ [Rng_Skipped vt]"
    by simp
  have "filter is_rng_skipped (amp_findings root) = []"
    using amp_no_skip by (intro filter_none) blast
  moreover have "filter is_rng_skipped (validate_odoo_view_conventions root vt) = []"
    using conventions_no_skip by (intro filter_none) blast
  ultimately have "length (filter is_rng_skipped (fst (lint_xml_file X net st text True False))) = 1"
    by (simp add: lint)
  with failed skip lint show ?thesis by simp
qed

theorem schema_fetch_failure_is_a_skip_witness:
  "fst (download_rng_schema (\<lambda>u. Raised ''timeout'') cold_fetcher ''common'') = None \<and>
   fst (lint_xml_file table_lxml (\<lambda>u. Raised ''timeout'') cold_fetcher ''tree_view.xml'' True False)
     = [Deprecated_Tree 1, Missing_Id 1, Missing_Field 1 None ''name'',
        Missing_Field 1 None ''model'', Missing_String 1 ''tree'', Rng_Skipped ''list'']"
proof -
  have p: "parse_file table_lxml ''tree_view.xml'' = Inr tree_view_doc"
    by (simp add: table_lxml_def)
  have c: "get_view_type_from_xml tree_view_doc = Some ''list''"
    by code_simp
  have s: "map_of RNG_SCHEMA_URLS ''list'' \<noteq> None"
    by (simp add: RNG_SCHEMA_URLS_def)
  have k: "''common'' = ''common'' \<or> ''common'' = ''list''"
    by simp
  have e: "schema_cache cold_fetcher ''common'' = None"
    by (simp add: cold_fetcher_def)
  obtain url where u: "map_of RNG_SCHEMA_URLS ''common'' = Some url"
    by (simp add: RNG_SCHEMA_URLS_def)
  have r: "(\<lambda>u::string. Raised ''timeout'') url = Raised ''timeout''"
    by simp
  have f: "amp_findings tree_view_doc @ validate_odoo_view_conventions tree_view_doc ''list''
      = [Deprecated_Tree 1, Missing_Id 1, Missing_Field 1 None ''name'',
         Missing_Field 1 None ''model'', Missing_String 1 ''tree'']"
    by code_simp
  from schema_fetch_failure_is_a_skip [OF p c s k e u r] f
  show ?thesis by simp
qed

subsection \<open>Searching and updating the candidate files\<close>












subsection \<open>A fragment that is not well-formed\<close>




subsection \<open>The values of a request\<close>

lemma prompted_position: "prompt_for_choice positions pick = Some p \<Longrightarrow> p \<in> set positions"
proof -
  assume "prompt_for_choice positions pick = Some p"
  then have "p = positions ! (pick mod length positions)" and "positions \<noteq> []"
    by (auto simp: prompt_for_choice_def split: if_splits)
  then show ?thesis by simp
qed

text \<open>
  Claim C8, as amended. An extension request is completed before use, not validated. A
  request is turned down only when the module is missing and there is nothing to choose
  from. Otherwise an XPath string, a field name or a position that is given and not
  empty is used exactly as given, whatever it is; one that is missing or empty is
  replaced by the answer to a prompt: the text as typed for the XPath string and the
  field name, one of after, before, inside, replace for the position.
\<close>

theorem request_is_completed_not_validated:
  "(\<not> falsy (opt_module opts) \<or> all_modules \<noteq> [] \<longrightarrow>
      resolve_request opts user all_modules \<noteq> None) \<and>
   (\<forall>req. resolve_request opts user all_modules = Some req \<longrightarrow>
      (\<not> falsy (opt_position opts) \<longrightarrow> Some (req_position req) = opt_position opts) \<and>
      (falsy (opt_position opts) \<longrightarrow> req_position req \<in> set positions) \<and>
      (\<not> falsy (opt_xpath_expr opts) \<longrightarrow> Some (req_xpath_expr req) = opt_xpath_expr opts) \<and>
      (falsy (opt_xpath_expr opts) \<longrightarrow> req_xpath_expr req = ans_xpath_expr user) \<and>
      (\<not> falsy (opt_field opts) \<longrightarrow> Some (req_field req) = opt_field opts) \<and>
      (falsy (opt_field opts) \<longrightarrow> req_field req = ans_field user))"
proof -
  let ?m = "or_choice (opt_module opts) all_modules (pick_module user)"
  let ?p = "or_choice (opt_position opts) positions (pick_position user)"
  have position_some: "?p \<noteq> None"
    by (simp add: or_choice_def prompt_for_choice_def positions_def split: option.splits)
  have accepted: "resolve_request opts user all_modules \<noteq> None"
    if "\<not> falsy (opt_module opts) \<or> all_modules \<noteq> []"
  proof -
    from that have "?m \<noteq> None"
      by (auto simp: or_choice_def prompt_for_choice_def falsy_def split: option.splits)
    then obtain module where m: "?m = Some module" by blast
    from position_some obtain position where p: "?p = Some position" by blast
    show ?thesis by (simp add: resolve_request_def m p)
  qed
  have used: "(\<not> falsy (opt_position opts) \<longrightarrow> Some (req_position req) = opt_position opts) \<and>
      (falsy (opt_position opts) \<longrightarrow> req_position req \<in> set positions) \<and>
      (\<not> falsy (opt_xpath_expr opts) \<longrightarrow> Some (req_xpath_expr req) = opt_xpath_expr opts) \<and>
      (falsy (opt_xpath_expr opts) \<longrightarrow> req_xpath_expr req = ans_xpath_expr user) \<and>
      (\<not> falsy (opt_field opts) \<longrightarrow> Some (req_field req) = opt_field opts) \<and>
      (falsy (opt_field opts) \<longrightarrow> req_field req = ans_field user)"
    if r: "resolve_request opts user all_modules = Some req" for req
  proof -
    from r obtain module where m: "?m = Some module"
      by (cases ?m) (simp_all add: resolve_request_def)
    from r m obtain position where p: "?p = Some position"
      by (cases ?p) (simp_all add: resolve_request_def)
    from r m p have pos: "req_position req = position"
      and xp: "req_xpath_expr req = or_text (opt_xpath_expr opts) (ans_xpath_expr user)"
      and fd: "req_field req = or_text (opt_field opts) (ans_field user)"
      by (auto simp: resolve_request_def)
    have a: "\<not> falsy (opt_position opts) \<longrightarrow> Some (req_position req) = opt_position opts"
      using p pos by (auto simp: or_choice_def falsy_def split: option.splits if_splits)
    have b: "falsy (opt_position opts) \<longrightarrow> req_position req \<in> set positions"
      using p pos prompted_position
      by (auto simp: or_choice_def falsy_def split: option.splits if_splits)
    have c: "\<not> falsy (opt_xpath_expr opts) \<longrightarrow> Some (req_xpath_expr req) = opt_xpath_expr opts"
      by (auto simp: xp or_text_def falsy_def split: option.splits)
    have d: "falsy (opt_xpath_expr opts) \<longrightarrow> req_xpath_expr req = ans_xpath_expr user"
      by (auto simp: xp or_text_def falsy_def split: option.splits)
    have e: "\<not> falsy (opt_field opts) \<longrightarrow> Some (req_field req) = opt_field opts"
      by (auto simp: fd or_text_def falsy_def split: option.splits)
    have f: "falsy (opt_field opts) \<longrightarrow> req_field req = ans_field user"
      by (auto simp: fd or_text_def falsy_def split: option.splits)
    from a b c d e f show ?thesis by blast
  qed
  from accepted used show ?thesis by blast
qed

theorem request_is_completed_not_validated_witness:
  "resolve_request (rank_options ''//field[@name='vat']'' ''sideways'') silent_user [''addons'']
     \<noteq> None \<and>
   map_option req_position
     (resolve_request (rank_options ''//field[@name='vat']'' ''sideways'') silent_user [''addons''])
     = Some ''sideways'' \<and>
   map_option req_xpath_expr
     (resolve_request (rank_options ''//field[@name='vat']'' ''sideways'') silent_user [''addons''])
     = Some ''//field[@name='vat']''"
proof -
  let ?opts = "rank_options ''//field[@name='vat']'' ''sideways''"
  note inst = request_is_completed_not_validated [of ?opts "[''addons'']" silent_user]
  have m: "\<not> falsy (opt_module ?opts) \<or> [''addons''] \<noteq> []" by simp
  from inst m have some: "resolve_request ?opts silent_user [''addons''] \<noteq> None" by blast
  then obtain req where req: "resolve_request ?opts silent_user [''addons''] = Some req" by blast
  have p: "\<not> falsy (opt_position ?opts)" "opt_position ?opts = Some ''sideways''"
    "\<not> falsy (opt_xpath_expr ?opts)" "opt_xpath_expr ?opts = Some ''//field[@name='vat']''"
    by (simp_all add: rank_options_def falsy_def)
  from inst req p have "req_position req = ''sideways''" "req_xpath_expr req = ''//field[@name='vat']''"
    by auto
  with some req show ?thesis by simp
qed

text \<open>
  Claim C8 as stated fails: a request with the position \<^verbatim>\<open>sideways\<close>, which is none of
  the four, is acted upon; the fragment with that position is appended to the matching
  file.
\<close>

theorem unvalidated_position_counterexample:
  "''sideways'' \<notin> set positions \<and>
   view plain_templates table_etree (rank_options ''//field[@name='vat']'' ''sideways'')
     silent_user crm_project
     = Success [(''notes.xml'', ''not xml''),
                (''partner_views.xml'',
                 serialize (append_child partner_view_doc [0, 2] (rank_fragment ''sideways'')))]"
  by code_simp

end
